theory Spec2Isabelle
  imports Main "HOL-Library.Word"
begin

section \<open>Identifiers\<close>

text \<open>
  Modelled from the spec: the identifier type \<open>discord.Snowflake\<close> of the arikawa library
  (\<open>discord.UserID\<close>, \<open>discord.GuildID\<close> and \<open>discord.ChannelID\<close> are copies of it),
  which \<open>main.go\<close> imports and does not define. The specification reads the test
  \<open>String() == ""\<close> as \<open>is none\<close> and the test \<open>IsValid()\<close> as \<open>is some channel\<close>,
  each the other's negation. That is how the library has them: an identifier is 64 bits
  wide, the all-ones value is the null snowflake (what a JSON \<open>null\<close> decodes to), an
  identifier is valid when it is neither zero nor null, and \<open>String\<close> renders an invalid
  identifier as the empty string and a valid one in decimal.
\<close>

type_synonym Snowflake = "64 word"
type_synonym UserID = Snowflake
type_synonym GuildID = Snowflake
type_synonym ChannelID = Snowflake

definition NullSnowflake :: Snowflake where
  "NullSnowflake = - 1"

definition IsValid :: "Snowflake \<Rightarrow> bool" where
  "IsValid s = (s \<noteq> 0 \<and> s \<noteq> NullSnowflake)"

fun FormatUint :: "nat \<Rightarrow> string" where
  "FormatUint n =
     (if n < 10 then [char_of (48 + n)]
      else FormatUint (n div 10) @ [char_of (48 + n mod 10)])"

declare FormatUint.simps [simp del]

definition String :: "Snowflake \<Rightarrow> string" where
  "String s = (if IsValid s then FormatUint (unat s) else [])"

section \<open>Data read from the gateway and the directory\<close>

text \<open>
  Only the fields that \<open>main.go\<close> reads are kept. \<open>Member\<close> is a pointer in
  \<open>discord.VoiceState\<close>, hence an option here: dereferencing it when it is nil panics.
\<close>

record User =
  Username :: string

record Member =
  User :: User

record VoiceState =
  vs_GuildID :: GuildID
  vs_ChannelID :: ChannelID
  vs_UserID :: UserID
  vs_Member :: "Member option"
  vs_SessionID :: string

text \<open>The zero value of the struct, which a Go map returns for a key it does not hold.\<close>

definition zeroVoiceState :: VoiceState where
  "zeroVoiceState =
     \<lparr>vs_GuildID = 0, vs_ChannelID = 0, vs_UserID = 0, vs_Member = None, vs_SessionID = []\<rparr>"

datatype ChannelType =
  GuildText | DirectMessage | GuildVoice | GroupDM | GuildCategory | OtherChannelType nat

record Channel =
  ch_ID :: ChannelID
  ch_GuildID :: GuildID
  ch_ParentID :: ChannelID
  ch_Name :: string
  ch_Type :: ChannelType
  ch_DMRecipients :: "User list"

record CreateChannelData =
  cd_Name :: string
  cd_Type :: ChannelType
  cd_CategoryID :: ChannelID

record ModifyMemberData =
  VoiceChannel :: ChannelID

section \<open>The directory client\<close>

text \<open>
  The five operations of \<open>state.State\<close> that the handler calls. Each one reads and
  changes a world \<open>'w\<close> that the handler cannot see, and each one may fail. A directory
  is any choice of the five functions, so a theorem about all directories covers every
  behaviour of the remote service, also a stateful or a misbehaving one.
\<close>

type_synonym err = string

record 'w Directory =
  dir_Channel :: "ChannelID \<Rightarrow> 'w \<Rightarrow> (err + Channel) \<times> 'w"
  dir_Channels :: "GuildID \<Rightarrow> 'w \<Rightarrow> (err + Channel list) \<times> 'w"
  dir_CreateChannel :: "GuildID \<Rightarrow> CreateChannelData \<Rightarrow> 'w \<Rightarrow> (err + Channel) \<times> 'w"
  dir_DeleteChannel :: "ChannelID \<Rightarrow> string \<Rightarrow> 'w \<Rightarrow> err option \<times> 'w"
  dir_ModifyMember :: "GuildID \<Rightarrow> UserID \<Rightarrow> ModifyMemberData \<Rightarrow> 'w \<Rightarrow> err option \<times> 'w"

text \<open>
  Every call is recorded with its arguments, its result and the place in
  \<open>onVoiceStateUpdate\<close> that made it (the line of \<open>main.go\<close> is given with each site).
\<close>

datatype site =
    JoinFetch        \<comment> \<open>line 89\<close>
  | CloneCreate      \<comment> \<open>line 96\<close>
  | CloneMove        \<comment> \<open>line 105\<close>
  | TeamsCategory    \<comment> \<open>line 116\<close>
  | TeamsText        \<comment> \<open>line 125\<close>
  | TeamsVoice       \<comment> \<open>line 135\<close>
  | TeamsMove        \<comment> \<open>line 145\<close>
  | LeaveFetch       \<comment> \<open>line 160\<close>
  | RoomDelete       \<comment> \<open>line 168\<close>
  | CategoryFetch    \<comment> \<open>line 178\<close>
  | CategoryList     \<comment> \<open>line 180\<close>
  | ChildDelete      \<comment> \<open>line 187\<close>
  | CategoryDelete   \<comment> \<open>line 190\<close>

datatype call =
    CallChannel ChannelID "err + Channel"
  | CallChannels GuildID "err + Channel list"
  | CallCreateChannel GuildID CreateChannelData "err + Channel"
  | CallDeleteChannel ChannelID string "err option"
  | CallModifyMember GuildID UserID ModifyMemberData "err option"

section \<open>The handler\<close>

text \<open>
  The fields of \<open>handler\<close> that hold data. The session \<open>s\<close> is the directory, passed
  as an argument; the mutex \<open>mu\<close> is held for the whole of \<open>onVoiceStateUpdate\<close>, so
  notifications are processed one after the other.
\<close>

record handler =
  userVoiceStates :: "UserID \<rightharpoonup> VoiceState"
  temporaryChannels :: "ChannelID list"
  temporaryCategories :: "ChannelID list"

definition newHandler :: handler where
  "newHandler =
     \<lparr>userVoiceStates = Map.empty, temporaryChannels = [], temporaryCategories = []\<rparr>"

fun contains_id :: "ChannelID list \<Rightarrow> ChannelID \<Rightarrow> bool" where
  "contains_id [] elem = False"
| "contains_id (item # items) elem = (if item = elem then True else contains_id items elem)"

fun remove_id :: "ChannelID list \<Rightarrow> ChannelID \<Rightarrow> ChannelID list" where
  "remove_id [] elem = []"
| "remove_id (item # items) elem = (if item = elem then items else item # remove_id items elem)"

text \<open>Line 78: reading a Go map gives the zero value for a key that is absent.\<close>

definition getVoiceState :: "handler \<Rightarrow> UserID \<Rightarrow> VoiceState" where
  "getVoiceState h u = (case userVoiceStates h u of None \<Rightarrow> zeroVoiceState | Some v \<Rightarrow> v)"

text \<open>
  The state of one execution: the handler's fields, the world behind the directory, the
  calls made so far, and whether the execution has panicked.
\<close>

record 'w run =
  hs :: handler
  world :: 'w
  calls :: "(site \<times> call) list"
  panicked :: bool

definition do_Channel ::
  "'w Directory \<Rightarrow> site \<Rightarrow> ChannelID \<Rightarrow> 'w run \<Rightarrow> (err + Channel) \<times> 'w run" where
  "do_Channel d st c r =
     (case dir_Channel d c (world r) of
        (res, w) \<Rightarrow> (res, r\<lparr>world := w, calls := calls r @ [(st, CallChannel c res)]\<rparr>))"

definition do_Channels ::
  "'w Directory \<Rightarrow> site \<Rightarrow> GuildID \<Rightarrow> 'w run \<Rightarrow> (err + Channel list) \<times> 'w run" where
  "do_Channels d st g r =
     (case dir_Channels d g (world r) of
        (res, w) \<Rightarrow> (res, r\<lparr>world := w, calls := calls r @ [(st, CallChannels g res)]\<rparr>))"

definition do_CreateChannel ::
  "'w Directory \<Rightarrow> site \<Rightarrow> GuildID \<Rightarrow> CreateChannelData \<Rightarrow> 'w run \<Rightarrow> (err + Channel) \<times> 'w run"
  where
  "do_CreateChannel d st g dat r =
     (case dir_CreateChannel d g dat (world r) of
        (res, w) \<Rightarrow> (res, r\<lparr>world := w, calls := calls r @ [(st, CallCreateChannel g dat res)]\<rparr>))"

definition do_DeleteChannel ::
  "'w Directory \<Rightarrow> site \<Rightarrow> ChannelID \<Rightarrow> string \<Rightarrow> 'w run \<Rightarrow> err option \<times> 'w run" where
  "do_DeleteChannel d st c reason r =
     (case dir_DeleteChannel d c reason (world r) of
        (res, w) \<Rightarrow> (res, r\<lparr>world := w, calls := calls r @ [(st, CallDeleteChannel c reason res)]\<rparr>))"

definition do_ModifyMember ::
  "'w Directory \<Rightarrow> site \<Rightarrow> GuildID \<Rightarrow> UserID \<Rightarrow> ModifyMemberData \<Rightarrow> 'w run
     \<Rightarrow> err option \<times> 'w run" where
  "do_ModifyMember d st g u dat r =
     (case dir_ModifyMember d g u dat (world r) of
        (res, w) \<Rightarrow> (res, r\<lparr>world := w, calls := calls r @ [(st, CallModifyMember g u dat res)]\<rparr>))"

text \<open>Lines 112 and 153: \<open>append\<close> to the slice, with no test for presence.\<close>

definition markChannel :: "handler \<Rightarrow> ChannelID \<Rightarrow> handler" where
  "markChannel h c = h\<lparr>temporaryChannels := temporaryChannels h @ [c]\<rparr>"

definition markCategory :: "handler \<Rightarrow> ChannelID \<Rightarrow> handler" where
  "markCategory h c = h\<lparr>temporaryCategories := temporaryCategories h @ [c]\<rparr>"

text \<open>
  A \<open>return\<close> inside a branch leaves the whole handler; falling out of the branch goes
  on with the statements after it.
\<close>

datatype 'a flow = Returned 'a | Falls 'a

fun flow_run :: "'a flow \<Rightarrow> 'a" where
  "flow_run (Returned r) = r"
| "flow_run (Falls r) = r"

text \<open>The two trigger names: the dog emoji U+1F415 in UTF-8, a space and \<open>bark\<close>; and \<open>teams\<close>.\<close>

definition cloneTrigger :: string where
  "cloneTrigger = [CHR 0xF0, CHR 0x9F, CHR 0x90, CHR 0x95] @ '' bark''"

definition teamsTrigger :: string where
  "teamsTrigger = ''teams''"

definition cleaningUp :: string where
  "cleaningUp = ''cleaning up''"

text \<open>Lines 96 to 112.\<close>

definition cloneBranch ::
  "'w Directory \<Rightarrow> VoiceState \<Rightarrow> string \<Rightarrow> Channel \<Rightarrow> 'w run \<Rightarrow> 'w run flow" where
  "cloneBranch d evt possibleChannelName afterChannel r =
     (case do_CreateChannel d CloneCreate (ch_GuildID afterChannel)
             \<lparr>cd_Name = possibleChannelName, cd_Type = GuildVoice,
              cd_CategoryID = ch_ParentID afterChannel\<rparr> r of
        (Inl e, r1) \<Rightarrow> Returned r1
      | (Inr tempChannel, r1) \<Rightarrow>
          (case do_ModifyMember d CloneMove (ch_GuildID afterChannel) (vs_UserID evt)
                  \<lparr>VoiceChannel = ch_ID tempChannel\<rparr> r1 of
             (Some e, r2) \<Rightarrow> Returned r2
           | (None, r2) \<Rightarrow> Falls (r2\<lparr>hs := markChannel (hs r2) (ch_ID tempChannel)\<rparr>)))"

text \<open>Lines 116 to 153.\<close>

definition teamsBranch ::
  "'w Directory \<Rightarrow> VoiceState \<Rightarrow> string \<Rightarrow> Channel \<Rightarrow> 'w run \<Rightarrow> 'w run flow" where
  "teamsBranch d evt possibleChannelName afterChannel r =
     (case do_CreateChannel d TeamsCategory (ch_GuildID afterChannel)
             \<lparr>cd_Name = possibleChannelName, cd_Type = GuildCategory, cd_CategoryID = 0\<rparr> r of
        (Inl e, r1) \<Rightarrow> Returned r1
      | (Inr temporaryCategory, r1) \<Rightarrow>
          (case do_CreateChannel d TeamsText (ch_GuildID temporaryCategory)
                  \<lparr>cd_Name = ''text'', cd_Type = GuildText,
                   cd_CategoryID = ch_ID temporaryCategory\<rparr> r1 of
             (Inl e, r2) \<Rightarrow> Returned r2
           | (Inr textChannel, r2) \<Rightarrow>
               (case do_CreateChannel d TeamsVoice (ch_GuildID temporaryCategory)
                       \<lparr>cd_Name = ''voice'', cd_Type = GuildVoice,
                        cd_CategoryID = ch_ID temporaryCategory\<rparr> r2 of
                  (Inl e, r3) \<Rightarrow> Returned r3
                | (Inr tempChannel, r3) \<Rightarrow>
                    (case do_ModifyMember d TeamsMove (ch_GuildID temporaryCategory)
                            (vs_UserID evt) \<lparr>VoiceChannel = ch_ID tempChannel\<rparr> r3 of
                       (Some e, r4) \<Rightarrow> Returned r4
                     | (None, r4) \<Rightarrow>
                         Falls (r4\<lparr>hs := markCategory (hs r4) (ch_ID tempChannel)\<rparr>)))))"

text \<open>Lines 86 to 156.\<close>

definition joinSection ::
  "'w Directory \<Rightarrow> VoiceState \<Rightarrow> VoiceState \<Rightarrow> string \<Rightarrow> 'w run \<Rightarrow> 'w run flow" where
  "joinSection d beforeState evt possibleChannelName r =
     (if String (vs_ChannelID beforeState) = [] \<and> IsValid (vs_ChannelID evt) then
        if vs_ChannelID beforeState \<noteq> vs_ChannelID evt then
          (case do_Channel d JoinFetch (vs_ChannelID evt) r of
             (Inl e, r1) \<Rightarrow> Returned r1
           | (Inr afterChannel, r1) \<Rightarrow>
               (case (if ch_Name afterChannel = cloneTrigger
                      then cloneBranch d evt possibleChannelName afterChannel r1
                      else Falls r1) of
                  Returned r2 \<Rightarrow> Returned r2
                | Falls r2 \<Rightarrow>
                    if ch_Name afterChannel = teamsTrigger
                    then teamsBranch d evt possibleChannelName afterChannel r2
                    else Falls r2))
        else Falls r
      else Falls r)"

text \<open>Lines 185 to 189: the result of each deletion is dropped.\<close>

fun deleteChildren :: "'w Directory \<Rightarrow> ChannelID \<Rightarrow> Channel list \<Rightarrow> 'w run \<Rightarrow> 'w run" where
  "deleteChildren d categoryID [] r = r"
| "deleteChildren d categoryID (channel # channels) r =
     deleteChildren d categoryID channels
       (if ch_ParentID channel = categoryID
        then snd (do_DeleteChannel d ChildDelete (ch_ID channel) cleaningUp r)
        else r)"

text \<open>Lines 166 to 174.\<close>

definition roomTeardown :: "'w Directory \<Rightarrow> Channel \<Rightarrow> 'w run \<Rightarrow> 'w run" where
  "roomTeardown d beforeChannel r =
     (if contains_id (temporaryChannels (hs r)) (ch_ID beforeChannel) then
        if ch_DMRecipients beforeChannel = [] then
          (case do_DeleteChannel d RoomDelete (ch_ID beforeChannel) cleaningUp r of
             (res, r1) \<Rightarrow>
               r1\<lparr>hs := (hs r1)\<lparr>temporaryChannels :=
                       remove_id (temporaryChannels (hs r1)) (ch_ID beforeChannel)\<rparr>\<rparr>)
        else r
      else r)"

text \<open>Lines 176 to 196.\<close>

definition categoryTeardown :: "'w Directory \<Rightarrow> Channel \<Rightarrow> 'w run \<Rightarrow> 'w run" where
  "categoryTeardown d beforeChannel r =
     (let categoryID = ch_ParentID beforeChannel in
      if categoryID \<noteq> 0 \<and> contains_id (temporaryCategories (hs r)) (ch_ID beforeChannel) then
        (case do_Channel d CategoryFetch categoryID r of
           (Inl e, r1) \<Rightarrow> r1
         | (Inr category, r1) \<Rightarrow>
             if ch_DMRecipients beforeChannel = [] then
               (case do_Channels d CategoryList (ch_GuildID category) r1 of
                  (Inl e, r2) \<Rightarrow> r2
                | (Inr channels, r2) \<Rightarrow>
                    (case do_DeleteChannel d CategoryDelete (ch_ID category) cleaningUp
                            (deleteChildren d categoryID channels r2) of
                       (res, r3) \<Rightarrow>
                         r3\<lparr>hs := (hs r3)\<lparr>temporaryCategories :=
                                 remove_id (temporaryCategories (hs r3)) categoryID\<rparr>\<rparr>))
             else r1)
      else r)"

text \<open>Lines 158 to 197.\<close>

definition leaveSection :: "'w Directory \<Rightarrow> VoiceState \<Rightarrow> VoiceState \<Rightarrow> 'w run \<Rightarrow> 'w run" where
  "leaveSection d beforeState evt r =
     (if IsValid (vs_ChannelID beforeState) \<and> String (vs_ChannelID evt) = [] then
        (case do_Channel d LeaveFetch (vs_ChannelID beforeState) r of
           (Inl e, r1) \<Rightarrow> r1
         | (Inr beforeChannel, r1) \<Rightarrow>
             categoryTeardown d beforeChannel (roomTeardown d beforeChannel r1))
      else r)"

text \<open>
  Lines 73 to 198. The registry is read and overwritten first (lines 78 and 80); line 82
  dereferences \<open>evt.Member\<close> and panics when it is nil. The two print statements write to
  the process's output only and are left out.
\<close>

definition onVoiceStateUpdate :: "'w Directory \<Rightarrow> VoiceState \<Rightarrow> 'w run \<Rightarrow> 'w run" where
  "onVoiceStateUpdate d evt r =
     (let beforeState = getVoiceState (hs r) (vs_UserID evt);
          r0 = r\<lparr>hs := (hs r)\<lparr>userVoiceStates :=
                    (userVoiceStates (hs r))(vs_UserID evt \<mapsto> evt)\<rparr>\<rparr>
      in case vs_Member evt of
           None \<Rightarrow> r0\<lparr>panicked := True\<rparr>
         | Some m \<Rightarrow>
             (let possibleChannelName = Username (User m) @ [CHR 0x27] @ ''s room'' in
              case joinSection d beforeState evt possibleChannelName r0 of
                Returned r1 \<Rightarrow> r1
              | Falls r1 \<Rightarrow> leaveSection d beforeState evt r1))"

text \<open>
  Notifications are delivered one at a time; a panic ends the process, so nothing is
  processed after it.
\<close>

fun deliver :: "'w Directory \<Rightarrow> VoiceState list \<Rightarrow> 'w run \<Rightarrow> 'w run" where
  "deliver d [] r = r"
| "deliver d (evt # evts) r =
     (if panicked r then r else deliver d evts (onVoiceStateUpdate d evt r))"

definition start :: "'w \<Rightarrow> 'w run" where
  "start w = \<lparr>hs = newHandler, world = w, calls = [], panicked = False\<rparr>"

section \<open>A directory held in memory\<close>

text \<open>
  A concrete directory on which the handler can be run: the world is the list of the
  guild's channels, a created channel gets the next free identifier, and no call fails.
  Failing directories are obtained from it by replacing one operation.
\<close>

definition memoryDirectory :: "Channel list Directory" where
  "memoryDirectory =
     \<lparr>dir_Channel = (\<lambda>c w.
         (case find (\<lambda>ch. ch_ID ch = c) w of
            None \<Rightarrow> Inl ''unknown channel'' | Some ch \<Rightarrow> Inr ch, w)),
      dir_Channels = (\<lambda>g w. (Inr (filter (\<lambda>ch. ch_GuildID ch = g) w), w)),
      dir_CreateChannel = (\<lambda>g dat w.
         (let ch = \<lparr>ch_ID = 100 + of_nat (length w), ch_GuildID = g,
                    ch_ParentID = cd_CategoryID dat, ch_Name = cd_Name dat,
                    ch_Type = cd_Type dat, ch_DMRecipients = []\<rparr>
          in (Inr ch, w @ [ch]))),
      dir_DeleteChannel = (\<lambda>c reason w. (None, filter (\<lambda>ch. ch_ID ch \<noteq> c) w)),
      dir_ModifyMember = (\<lambda>g u dat w. (None, w))\<rparr>"

definition failingCreate :: "Channel list Directory" where
  "failingCreate = memoryDirectory\<lparr>dir_CreateChannel := (\<lambda>g dat w. (Inl ''denied'', w))\<rparr>"

definition failingMove :: "Channel list Directory" where
  "failingMove = memoryDirectory\<lparr>dir_ModifyMember := (\<lambda>g u dat w. (Some ''denied'', w))\<rparr>"

definition failingDelete :: "Channel list Directory" where
  "failingDelete = memoryDirectory\<lparr>dir_DeleteChannel := (\<lambda>c reason w. (Some ''denied'', w))\<rparr>"

definition lobby :: Channel where
  "lobby = \<lparr>ch_ID = 10, ch_GuildID = 1, ch_ParentID = 5, ch_Name = ''lobby'',
            ch_Type = GuildVoice, ch_DMRecipients = []\<rparr>"

definition barkChannel :: Channel where
  "barkChannel = \<lparr>ch_ID = 11, ch_GuildID = 1, ch_ParentID = 5, ch_Name = cloneTrigger,
                  ch_Type = GuildVoice, ch_DMRecipients = []\<rparr>"

definition teamsChannel :: Channel where
  "teamsChannel = \<lparr>ch_ID = 12, ch_GuildID = 1, ch_ParentID = 5, ch_Name = teamsTrigger,
                   ch_Type = GuildVoice, ch_DMRecipients = []\<rparr>"

definition sampleWorld :: "Channel list" where
  "sampleWorld = [lobby, barkChannel, teamsChannel]"

definition voiceEvent :: "UserID \<Rightarrow> string \<Rightarrow> ChannelID \<Rightarrow> VoiceState" where
  "voiceEvent u name c =
     \<lparr>vs_GuildID = 1, vs_ChannelID = c, vs_UserID = u,
      vs_Member = Some \<lparr>User = \<lparr>Username = name\<rparr>\<rparr>, vs_SessionID = ''session''\<rparr>"

definition repeatingDirectory :: "Channel list Directory" where
  "repeatingDirectory = memoryDirectory\<lparr>dir_CreateChannel := (\<lambda>g dat w.
     (Inr \<lparr>ch_ID = 7, ch_GuildID = g, ch_ParentID = cd_CategoryID dat, ch_Name = cd_Name dat,
           ch_Type = cd_Type dat, ch_DMRecipients = []\<rparr>, w))\<rparr>"

text \<open>User 1 sits in the lobby, and the lobby is listed as a temporary channel.\<close>

definition inLobby :: "Channel list run" where
  "inLobby =
     \<lparr>hs = \<lparr>userVoiceStates = [1 \<mapsto> voiceEvent 1 ''alice'' 10], temporaryChannels = [10],
            temporaryCategories = []\<rparr>,
      world = sampleWorld, calls = [], panicked = False\<rparr>"

section \<open>Reading the log\<close>

fun isModifyMember :: "call \<Rightarrow> bool" where
  "isModifyMember (CallModifyMember g u dat res) = True"
| "isModifyMember c = False"

text \<open>The calls that a run \<open>r'\<close> has made since the run \<open>r\<close> it continues.\<close>

definition callsSince :: "'w run \<Rightarrow> 'w run \<Rightarrow> (site \<times> call) list" where
  "callsSince r r' = drop (length (calls r)) (calls r')"

text \<open>
  What one log entry says about the list of temporary channels: the identifier that the
  clone branch's \<open>CreateChannel\<close> returned, the identifier into which the clone branch's
  \<open>ModifyMember\<close> moved the user with success, the identifier that a \<open>DeleteChannel\<close>
  anywhere in the leave branch deleted with success, and the identifier on which the room
  teardown called \<open>DeleteChannel\<close> at all.
\<close>

definition cloneCreated :: "site \<times> call \<Rightarrow> ChannelID option" where
  "cloneCreated e =
     (if fst e = CloneCreate
      then (case snd e of CallCreateChannel g dat (Inr ch) \<Rightarrow> Some (ch_ID ch) | _ \<Rightarrow> None)
      else None)"

definition cloneMoved :: "site \<times> call \<Rightarrow> ChannelID option" where
  "cloneMoved e =
     (if fst e = CloneMove
      then (case snd e of CallModifyMember g u dat None \<Rightarrow> Some (VoiceChannel dat) | _ \<Rightarrow> None)
      else None)"

definition teardownDeleted :: "site \<times> call \<Rightarrow> ChannelID option" where
  "teardownDeleted e =
     (if fst e = RoomDelete \<or> fst e = ChildDelete \<or> fst e = CategoryDelete
      then (case snd e of CallDeleteChannel c reason None \<Rightarrow> Some c | _ \<Rightarrow> None)
      else None)"

definition roomDeleteCalled :: "site \<times> call \<Rightarrow> ChannelID option" where
  "roomDeleteCalled e =
     (if fst e = RoomDelete
      then (case snd e of CallDeleteChannel c reason res \<Rightarrow> Some c | _ \<Rightarrow> None)
      else None)"

text \<open>
  The invariant in the specification's words: an identifier is tracked when the clone
  branch's \<open>CreateChannel\<close> returned it and no \<open>DeleteChannel\<close> of the leave branch has
  succeeded on it since.
\<close>

definition specTracked :: "(site \<times> call) list \<Rightarrow> ChannelID \<Rightarrow> bool" where
  "specTracked log c =
     foldl (\<lambda>tracked e. if cloneCreated e = Some c then True
                         else if teardownDeleted e = Some c then False else tracked) False log"

text \<open>
  The same reading with the two events that the code acts on: the successful move of the
  clone branch, and the call of \<open>DeleteChannel\<close> in the room teardown whatever its result.
\<close>

definition logTracked :: "(site \<times> call) list \<Rightarrow> ChannelID \<Rightarrow> bool" where
  "logTracked log c =
     foldl (\<lambda>tracked e. if cloneMoved e = Some c then True
                         else if roomDeleteCalled e = Some c then False else tracked) False log"

definition replayStep :: "ChannelID list \<Rightarrow> site \<times> call \<Rightarrow> ChannelID list" where
  "replayStep xs e =
     (case cloneMoved e of
        Some c \<Rightarrow> xs @ [c]
      | None \<Rightarrow> (case roomDeleteCalled e of Some c \<Rightarrow> remove_id xs c | None \<Rightarrow> xs))"

definition replayChannels :: "(site \<times> call) list \<Rightarrow> ChannelID list" where
  "replayChannels log = foldl replayStep [] log"

text \<open>The identifiers that the clone branch has appended, in order.\<close>

definition appended :: "(site \<times> call) list \<Rightarrow> ChannelID list" where
  "appended log = List.map_filter cloneMoved log"

text \<open>
  Each successful move of the clone branch comes right after the \<open>CreateChannel\<close> of the
  clone branch that returned the channel moved into; \<open>prev\<close> is what the entry before
  the list created.
\<close>

fun linked :: "ChannelID option \<Rightarrow> (site \<times> call) list \<Rightarrow> bool" where
  "linked prev [] = True"
| "linked prev (e # es) =
     ((case cloneMoved e of None \<Rightarrow> True | Some c \<Rightarrow> prev = Some c)
      \<and> linked (cloneCreated e) es)"

text \<open>A run whose list of temporary channels is the one its log gives, with a linked log.\<close>

definition followsLog :: "'w run \<Rightarrow> bool" where
  "followsLog r =
     (temporaryChannels (hs r) = replayChannels (calls r) \<and> linked None (calls r))"

section \<open>Identifiers: validity and rendering\<close>

lemma FormatUint_nonempty: "FormatUint n \<noteq> []"
  by (subst FormatUint.simps) simp

lemma String_empty_iff: "(String s = []) = (\<not> IsValid s)"
  by (simp add: String_def FormatUint_nonempty)

section \<open>What a directory call leaves alone\<close>

lemma do_Channel_frame:
  "do_Channel d st c r = (res, r') \<Longrightarrow>
     hs r' = hs r \<and> panicked r' = panicked r \<and> calls r' = calls r @ [(st, CallChannel c res)]
     \<and> (res, world r') = dir_Channel d c (world r)"
  by (auto simp: do_Channel_def split: prod.splits)

lemma do_Channels_frame:
  "do_Channels d st g r = (res, r') \<Longrightarrow>
     hs r' = hs r \<and> panicked r' = panicked r \<and> calls r' = calls r @ [(st, CallChannels g res)]
     \<and> (res, world r') = dir_Channels d g (world r)"
  by (auto simp: do_Channels_def split: prod.splits)

lemma do_CreateChannel_frame:
  "do_CreateChannel d st g dat r = (res, r') \<Longrightarrow>
     hs r' = hs r \<and> panicked r' = panicked r
     \<and> calls r' = calls r @ [(st, CallCreateChannel g dat res)]
     \<and> (res, world r') = dir_CreateChannel d g dat (world r)"
  by (auto simp: do_CreateChannel_def split: prod.splits)

lemma do_DeleteChannel_frame:
  "do_DeleteChannel d st c reason r = (res, r') \<Longrightarrow>
     hs r' = hs r \<and> panicked r' = panicked r
     \<and> calls r' = calls r @ [(st, CallDeleteChannel c reason res)]
     \<and> (res, world r') = dir_DeleteChannel d c reason (world r)"
  by (auto simp: do_DeleteChannel_def split: prod.splits)

lemma do_ModifyMember_frame:
  "do_ModifyMember d st g u dat r = (res, r') \<Longrightarrow>
     hs r' = hs r \<and> panicked r' = panicked r
     \<and> calls r' = calls r @ [(st, CallModifyMember g u dat res)]
     \<and> (res, world r') = dir_ModifyMember d g u dat (world r)"
  by (auto simp: do_ModifyMember_def split: prod.splits)

lemma deleteChildren_frame:
  "hs (deleteChildren d c chs r) = hs r \<and> panicked (deleteChildren d c chs r) = panicked r"
  by (induction chs arbitrary: r) (auto simp: do_DeleteChannel_def split: prod.splits)

section \<open>The registry\<close>

lemma cloneBranch_registry:
  "userVoiceStates (hs (flow_run (cloneBranch d evt n a r))) = userVoiceStates (hs r)"
  by (auto simp: cloneBranch_def markChannel_def split: prod.splits sum.splits option.splits
      dest!: do_CreateChannel_frame do_ModifyMember_frame)

lemma teamsBranch_registry:
  "userVoiceStates (hs (flow_run (teamsBranch d evt n a r))) = userVoiceStates (hs r)"
  by (auto simp: teamsBranch_def markCategory_def split: prod.splits sum.splits option.splits
      dest!: do_CreateChannel_frame do_ModifyMember_frame)

lemma joinSection_registry:
  "userVoiceStates (hs (flow_run (joinSection d b evt n r))) = userVoiceStates (hs r)"
proof -
  have c: "\<And>a r. userVoiceStates (hs (flow_run (cloneBranch d evt n a r))) = userVoiceStates (hs r)"
    by (rule cloneBranch_registry)
  have t: "\<And>a r. userVoiceStates (hs (flow_run (teamsBranch d evt n a r))) = userVoiceStates (hs r)"
    by (rule teamsBranch_registry)
  show ?thesis
    unfolding joinSection_def
    by (auto split: prod.splits sum.splits flow.splits dest!: do_Channel_frame
        simp: c t dest: arg_cong[where f="\<lambda>x. userVoiceStates (hs (flow_run x))"])
qed

lemma joinSection_registry_eq:
  "joinSection d b evt n r = f \<Longrightarrow> userVoiceStates (hs (flow_run f)) = userVoiceStates (hs r)"
  using joinSection_registry[of d b evt n r] by simp

lemma roomTeardown_registry:
  "userVoiceStates (hs (roomTeardown d b r)) = userVoiceStates (hs r)"
  by (auto simp: roomTeardown_def split: prod.splits dest!: do_DeleteChannel_frame)

lemma categoryTeardown_registry:
  "userVoiceStates (hs (categoryTeardown d b r)) = userVoiceStates (hs r)"
  by (auto simp: categoryTeardown_def Let_def deleteChildren_frame
      split: prod.splits sum.splits
      dest!: do_DeleteChannel_frame do_Channel_frame do_Channels_frame)

lemma leaveSection_registry:
  "userVoiceStates (hs (leaveSection d b evt r)) = userVoiceStates (hs r)"
  by (auto simp: leaveSection_def categoryTeardown_registry roomTeardown_registry
      split: prod.splits sum.splits dest!: do_Channel_frame)

lemma registry_after:
  "userVoiceStates (hs (onVoiceStateUpdate d evt r)) =
     (userVoiceStates (hs r))(vs_UserID evt \<mapsto> evt)"
  by (auto simp: onVoiceStateUpdate_def Let_def leaveSection_registry
      split: option.splits flow.splits dest!: joinSection_registry_eq)

text \<open>
  C8. After the handler has processed a notification, the registry holds the notification's
  voice state for its user. This is so for every directory, hence whatever call failed, and
  also when the handler panicked on a nil member: line 80 runs first and nothing undoes it.
\<close>

theorem registry_holds_new_membership:
  "userVoiceStates (hs (onVoiceStateUpdate d evt r)) (vs_UserID evt) = Some evt"
  by (simp add: registry_after)

theorem registry_holds_new_membership_witness:
  "userVoiceStates (hs (onVoiceStateUpdate failingCreate (voiceEvent 1 ''alice'' 11)
       (start sampleWorld))) (vs_UserID (voiceEvent 1 ''alice'' 11))
     = Some (voiceEvent 1 ''alice'' 11)"
  using registry_holds_new_membership
          [of failingCreate "voiceEvent 1 ''alice'' 11" "start sampleWorld"]
  by simp

text \<open>
  C10. Processing a notification leaves the registry entry of every other user as it was.
\<close>

theorem registry_other_users_unchanged:
  "u \<noteq> vs_UserID evt \<Longrightarrow>
     userVoiceStates (hs (onVoiceStateUpdate d evt r)) u = userVoiceStates (hs r) u"
  by (simp add: registry_after)

theorem registry_other_users_unchanged_witness:
  "(2 :: UserID) \<noteq> vs_UserID (voiceEvent 1 ''alice'' 11) \<and>
   userVoiceStates (hs (onVoiceStateUpdate memoryDirectory (voiceEvent 1 ''alice'' 11)
       (onVoiceStateUpdate memoryDirectory (voiceEvent 2 ''bob'' 10) (start sampleWorld)))) 2
     = userVoiceStates (hs (onVoiceStateUpdate memoryDirectory (voiceEvent 2 ''bob'' 10)
         (start sampleWorld))) 2"
proof -
  have ne: "(2 :: UserID) \<noteq> vs_UserID (voiceEvent 1 ''alice'' 11)"
    by (simp add: voiceEvent_def)
  show ?thesis
    using ne registry_other_users_unchanged [OF ne, of memoryDirectory
      "onVoiceStateUpdate memoryDirectory (voiceEvent 2 ''bob'' 10) (start sampleWorld)"]
    by simp
qed

section \<open>Evaluating the handler on the sample data\<close>

lemma triggers_differ: "cloneTrigger \<noteq> teamsTrigger"
  by (simp add: cloneTrigger_def teamsTrigger_def)

lemmas sample_defs = memoryDirectory_def failingCreate_def failingMove_def
  lobby_def barkChannel_def teamsChannel_def sampleWorld_def
  voiceEvent_def start_def newHandler_def

lemmas handler_defs = onVoiceStateUpdate_def Let_def joinSection_def cloneBranch_def teamsBranch_def
  leaveSection_def roomTeardown_def categoryTeardown_def
  do_Channel_def do_Channels_def do_CreateChannel_def do_DeleteChannel_def do_ModifyMember_def
  markChannel_def markCategory_def getVoiceState_def zeroVoiceState_def
  String_empty_iff IsValid_def NullSnowflake_def cloneTrigger_def teamsTrigger_def cleaningUp_def

section \<open>Notifications that take no branch\<close>

lemma no_branch_taken:
  assumes "\<not> (String (vs_ChannelID (getVoiceState (hs r) (vs_UserID evt))) = []
              \<and> IsValid (vs_ChannelID evt))"
      and "\<not> (IsValid (vs_ChannelID (getVoiceState (hs r) (vs_UserID evt)))
              \<and> String (vs_ChannelID evt) = [])"
  shows "onVoiceStateUpdate d evt r =
           r\<lparr>hs := (hs r)\<lparr>userVoiceStates := (userVoiceStates (hs r))(vs_UserID evt \<mapsto> evt)\<rparr>,
             panicked := (panicked r \<or> vs_Member evt = None)\<rparr>"
  using assms
  by (auto simp: onVoiceStateUpdate_def Let_def joinSection_def leaveSection_def
      split: option.splits)

text \<open>
  C6. When the user's recorded channel and the notification's channel are both valid and
  differ (a move), or are equal (a repeat), the handler calls the directory not at all,
  leaves the world as it is, and changes nothing in its own state but the user's registry
  entry. Neither guard holds: line 86 wants the recorded channel to render as the empty
  string, line 158 wants the new one to.
\<close>

theorem move_or_noop_only_overwrites_registry:
  assumes "IsValid (vs_ChannelID (getVoiceState (hs r) (vs_UserID evt)))
             \<and> IsValid (vs_ChannelID evt)
             \<and> vs_ChannelID (getVoiceState (hs r) (vs_UserID evt)) \<noteq> vs_ChannelID evt
           \<or> vs_ChannelID (getVoiceState (hs r) (vs_UserID evt)) = vs_ChannelID evt"
  shows "calls (onVoiceStateUpdate d evt r) = calls r
       \<and> world (onVoiceStateUpdate d evt r) = world r
       \<and> hs (onVoiceStateUpdate d evt r) =
           (hs r)\<lparr>userVoiceStates := (userVoiceStates (hs r))(vs_UserID evt \<mapsto> evt)\<rparr>"
proof -
  have "onVoiceStateUpdate d evt r =
           r\<lparr>hs := (hs r)\<lparr>userVoiceStates := (userVoiceStates (hs r))(vs_UserID evt \<mapsto> evt)\<rparr>,
             panicked := (panicked r \<or> vs_Member evt = None)\<rparr>"
    using assms by (intro no_branch_taken) (auto simp: String_empty_iff)
  then show ?thesis by simp
qed

text \<open>
  C6, on the sample data: user 1 moves from the lobby, which is listed as a temporary
  channel, into the clone trigger. Nothing is called and the lobby stays listed.
\<close>

theorem move_or_noop_only_overwrites_registry_witness:
  "IsValid (vs_ChannelID (getVoiceState (hs inLobby) (vs_UserID (voiceEvent 1 ''alice'' 11))))
   \<and> IsValid (vs_ChannelID (voiceEvent 1 ''alice'' 11))
   \<and> calls (onVoiceStateUpdate memoryDirectory (voiceEvent 1 ''alice'' 11) inLobby) = []
   \<and> world (onVoiceStateUpdate memoryDirectory (voiceEvent 1 ''alice'' 11) inLobby) = sampleWorld
   \<and> temporaryChannels (hs (onVoiceStateUpdate memoryDirectory (voiceEvent 1 ''alice'' 11) inLobby))
       = [10]"
proof -
  have h: "IsValid (vs_ChannelID (getVoiceState (hs inLobby) (vs_UserID (voiceEvent 1 ''alice'' 11))))
             \<and> IsValid (vs_ChannelID (voiceEvent 1 ''alice'' 11))
             \<and> vs_ChannelID (getVoiceState (hs inLobby) (vs_UserID (voiceEvent 1 ''alice'' 11)))
                 \<noteq> vs_ChannelID (voiceEvent 1 ''alice'' 11)"
    by (simp add: sample_defs inLobby_def getVoiceState_def IsValid_def NullSnowflake_def)
  show ?thesis
    using h move_or_noop_only_overwrites_registry [OF disjI1, OF h, of memoryDirectory]
    by (simp add: inLobby_def)
qed

text \<open>
  C7. A notification delivered a second time, right after the first, calls the directory
  not at all and leaves the world, both lists and the registry as the first delivery left
  them: the first delivery recorded the notification, so the recorded channel and the new
  one are equal.
\<close>

theorem redelivery_is_noop:
  "calls (onVoiceStateUpdate d evt (onVoiceStateUpdate d evt r))
     = calls (onVoiceStateUpdate d evt r)
   \<and> world (onVoiceStateUpdate d evt (onVoiceStateUpdate d evt r))
     = world (onVoiceStateUpdate d evt r)
   \<and> hs (onVoiceStateUpdate d evt (onVoiceStateUpdate d evt r))
     = hs (onVoiceStateUpdate d evt r)"
proof -
  let ?r1 = "onVoiceStateUpdate d evt r"
  have b: "getVoiceState (hs ?r1) (vs_UserID evt) = evt"
    by (simp add: getVoiceState_def registry_after)
  have "onVoiceStateUpdate d evt ?r1 =
           ?r1\<lparr>hs := (hs ?r1)\<lparr>userVoiceStates := (userVoiceStates (hs ?r1))(vs_UserID evt \<mapsto> evt)\<rparr>,
             panicked := (panicked ?r1 \<or> vs_Member evt = None)\<rparr>"
    by (rule no_branch_taken) (auto simp: b String_empty_iff)
  moreover have "(userVoiceStates (hs ?r1))(vs_UserID evt \<mapsto> evt) = userVoiceStates (hs ?r1)"
    by (simp add: registry_after)
  ultimately show ?thesis by simp
qed

text \<open>
  C7, on the sample data: the join of the clone trigger, delivered twice. The second
  delivery adds no call to the three of the first.
\<close>

theorem redelivery_is_noop_witness:
  "map fst (calls (onVoiceStateUpdate memoryDirectory (voiceEvent 1 ''alice'' 11)
      (onVoiceStateUpdate memoryDirectory (voiceEvent 1 ''alice'' 11) (start sampleWorld))))
     = [JoinFetch, CloneCreate, CloneMove]
   \<and> temporaryChannels (hs (onVoiceStateUpdate memoryDirectory (voiceEvent 1 ''alice'' 11)
      (onVoiceStateUpdate memoryDirectory (voiceEvent 1 ''alice'' 11) (start sampleWorld))))
     = [103]"
proof -
  have "map fst (calls (onVoiceStateUpdate memoryDirectory (voiceEvent 1 ''alice'' 11)
          (start sampleWorld))) = [JoinFetch, CloneCreate, CloneMove]
        \<and> temporaryChannels (hs (onVoiceStateUpdate memoryDirectory (voiceEvent 1 ''alice'' 11)
          (start sampleWorld))) = [103]"
    by (simp add: sample_defs handler_defs)
  then show ?thesis
    using redelivery_is_noop [of memoryDirectory "voiceEvent 1 ''alice'' 11" "start sampleWorld"]
    by simp
qed

section \<open>The clone trigger\<close>

text \<open>
  C1. A user with no valid recorded channel joins a channel whose name is the clone
  trigger. After the fetch of that channel the handler calls \<open>CreateChannel\<close> once, for a
  voice channel in the trigger's guild and under the trigger's parent, named after the
  user. When that call returns a channel, one \<open>ModifyMember\<close> follows, moving the user
  into the returned channel, and when the move succeeds as well, the returned identifier
  is appended to \<open>temporaryChannels\<close>. The user name read is \<open>evt.Member.User.Username\<close>.
\<close>

theorem clone_trigger_join:
  assumes join: "String (vs_ChannelID (getVoiceState (hs r) (vs_UserID evt))) = []"
                "IsValid (vs_ChannelID evt)"
      and member: "vs_Member evt = Some m"
      and fetch: "dir_Channel d (vs_ChannelID evt) (world r) = (Inr afterChannel, w1)"
      and name: "ch_Name afterChannel = cloneTrigger"
  defines "roomData \<equiv> \<lparr>cd_Name = Username (User m) @ [CHR 0x27] @ ''s room'',
                        cd_Type = GuildVoice, cd_CategoryID = ch_ParentID afterChannel\<rparr>"
      and "fetched \<equiv> (JoinFetch, CallChannel (vs_ChannelID evt) (Inr afterChannel))"
  shows
   "(\<forall>e w2. dir_CreateChannel d (ch_GuildID afterChannel) roomData w1 = (Inl e, w2) \<longrightarrow>
       calls (onVoiceStateUpdate d evt r) = calls r @
         [fetched, (CloneCreate, CallCreateChannel (ch_GuildID afterChannel) roomData (Inl e))])
  \<and> (\<forall>tempChannel w2 moved w3.
       dir_CreateChannel d (ch_GuildID afterChannel) roomData w1 = (Inr tempChannel, w2)
       \<and> dir_ModifyMember d (ch_GuildID afterChannel) (vs_UserID evt)
           \<lparr>VoiceChannel = ch_ID tempChannel\<rparr> w2 = (moved, w3) \<longrightarrow>
       calls (onVoiceStateUpdate d evt r) = calls r @
         [fetched,
          (CloneCreate, CallCreateChannel (ch_GuildID afterChannel) roomData (Inr tempChannel)),
          (CloneMove, CallModifyMember (ch_GuildID afterChannel) (vs_UserID evt)
             \<lparr>VoiceChannel = ch_ID tempChannel\<rparr> moved)]
       \<and> (moved = None \<longrightarrow>
            temporaryChannels (hs (onVoiceStateUpdate d evt r)) =
              temporaryChannels (hs r) @ [ch_ID tempChannel]))"
proof -
  have ne: "\<not> IsValid (vs_ChannelID (getVoiceState (hs r) (vs_UserID evt)))"
    using join(1) by (simp add: String_empty_iff)
  then have neq: "vs_ChannelID (getVoiceState (hs r) (vs_UserID evt)) \<noteq> vs_ChannelID evt"
    using join(2) by auto
  show ?thesis
    using join member fetch name ne neq triggers_differ
    unfolding roomData_def fetched_def
    by (auto simp: onVoiceStateUpdate_def Let_def joinSection_def cloneBranch_def
          do_Channel_def do_CreateChannel_def do_ModifyMember_def leaveSection_def
          markChannel_def
        split: sum.splits option.splits prod.splits)
qed

text \<open>C1, on the sample data: alice joins the clone trigger and gets room 103.\<close>

theorem clone_trigger_join_witness:
  "calls (onVoiceStateUpdate memoryDirectory (voiceEvent 1 ''alice'' 11) (start sampleWorld)) =
     [(JoinFetch, CallChannel 11 (Inr barkChannel)),
      (CloneCreate, CallCreateChannel 1
         \<lparr>cd_Name = ''alice'' @ [CHR 0x27] @ ''s room'', cd_Type = GuildVoice, cd_CategoryID = 5\<rparr>
         (Inr \<lparr>ch_ID = 103, ch_GuildID = 1, ch_ParentID = 5,
               ch_Name = ''alice'' @ [CHR 0x27] @ ''s room'', ch_Type = GuildVoice,
               ch_DMRecipients = []\<rparr>)),
      (CloneMove, CallModifyMember 1 1 \<lparr>VoiceChannel = 103\<rparr> None)]
   \<and> temporaryChannels
        (hs (onVoiceStateUpdate memoryDirectory (voiceEvent 1 ''alice'' 11) (start sampleWorld)))
      = [103]"
proof -
  have 1: "String (vs_ChannelID (getVoiceState (hs (start sampleWorld))
              (vs_UserID (voiceEvent 1 ''alice'' 11)))) = []"
    by (simp add: sample_defs handler_defs)
  have 2: "IsValid (vs_ChannelID (voiceEvent 1 ''alice'' 11))"
    by (simp add: sample_defs handler_defs)
  have 3: "vs_Member (voiceEvent 1 ''alice'' 11) = Some \<lparr>User = \<lparr>Username = ''alice''\<rparr>\<rparr>"
    by (simp add: sample_defs)
  have 4: "dir_Channel memoryDirectory (vs_ChannelID (voiceEvent 1 ''alice'' 11))
             (world (start sampleWorld)) = (Inr barkChannel, sampleWorld)"
    by (simp add: sample_defs)
  have 5: "ch_Name barkChannel = cloneTrigger"
    by (simp add: sample_defs)
  show ?thesis
    using clone_trigger_join [OF 1 2 3 4 5]
    by (simp add: sample_defs Let_def)
qed

text \<open>
  C5. On the same path, when \<open>CreateChannel\<close> fails the handler makes no call of
  \<open>ModifyMember\<close> and \<open>temporaryChannels\<close> stays as it was; when \<open>CreateChannel\<close>
  succeeds and \<open>ModifyMember\<close> fails, \<open>temporaryChannels\<close> stays as it was too.
\<close>

theorem clone_failure_registers_nothing:
  assumes join: "String (vs_ChannelID (getVoiceState (hs r) (vs_UserID evt))) = []"
                "IsValid (vs_ChannelID evt)"
      and member: "vs_Member evt = Some m"
      and fetch: "dir_Channel d (vs_ChannelID evt) (world r) = (Inr afterChannel, w1)"
      and name: "ch_Name afterChannel = cloneTrigger"
  defines "roomData \<equiv> \<lparr>cd_Name = Username (User m) @ [CHR 0x27] @ ''s room'',
                        cd_Type = GuildVoice, cd_CategoryID = ch_ParentID afterChannel\<rparr>"
  shows
   "(\<forall>e w2. dir_CreateChannel d (ch_GuildID afterChannel) roomData w1 = (Inl e, w2) \<longrightarrow>
       filter (isModifyMember \<circ> snd) (callsSince r (onVoiceStateUpdate d evt r)) = []
       \<and> temporaryChannels (hs (onVoiceStateUpdate d evt r)) = temporaryChannels (hs r))
  \<and> (\<forall>tempChannel w2 e w3.
       dir_CreateChannel d (ch_GuildID afterChannel) roomData w1 = (Inr tempChannel, w2)
       \<and> dir_ModifyMember d (ch_GuildID afterChannel) (vs_UserID evt)
           \<lparr>VoiceChannel = ch_ID tempChannel\<rparr> w2 = (Some e, w3) \<longrightarrow>
       temporaryChannels (hs (onVoiceStateUpdate d evt r)) = temporaryChannels (hs r))"
proof -
  have ne: "\<not> IsValid (vs_ChannelID (getVoiceState (hs r) (vs_UserID evt)))"
    using join(1) by (simp add: String_empty_iff)
  then have neq: "vs_ChannelID (getVoiceState (hs r) (vs_UserID evt)) \<noteq> vs_ChannelID evt"
    using join(2) by auto
  show ?thesis
    using join member fetch name ne neq triggers_differ
    unfolding roomData_def
    by (auto simp: onVoiceStateUpdate_def Let_def joinSection_def cloneBranch_def
          do_Channel_def do_CreateChannel_def do_ModifyMember_def leaveSection_def
          callsSince_def
        split: sum.splits option.splits prod.splits)
qed

text \<open>C5, on the sample data, with a directory that refuses to create and one that refuses to move.\<close>

theorem clone_failure_registers_nothing_witness:
  "filter (isModifyMember \<circ> snd) (callsSince (start sampleWorld)
      (onVoiceStateUpdate failingCreate (voiceEvent 1 ''alice'' 11) (start sampleWorld))) = []
   \<and> temporaryChannels (hs
        (onVoiceStateUpdate failingCreate (voiceEvent 1 ''alice'' 11) (start sampleWorld))) = []
   \<and> temporaryChannels (hs
        (onVoiceStateUpdate failingMove (voiceEvent 1 ''alice'' 11) (start sampleWorld))) = []"
proof -
  have 1: "String (vs_ChannelID (getVoiceState (hs (start sampleWorld))
              (vs_UserID (voiceEvent 1 ''alice'' 11)))) = []"
    by (simp add: sample_defs handler_defs)
  have 2: "IsValid (vs_ChannelID (voiceEvent 1 ''alice'' 11))"
    by (simp add: sample_defs handler_defs)
  have 3: "vs_Member (voiceEvent 1 ''alice'' 11) = Some \<lparr>User = \<lparr>Username = ''alice''\<rparr>\<rparr>"
    by (simp add: sample_defs)
  have 4: "dir_Channel failingCreate (vs_ChannelID (voiceEvent 1 ''alice'' 11))
             (world (start sampleWorld)) = (Inr barkChannel, sampleWorld)"
    by (simp add: sample_defs)
  have 6: "dir_Channel failingMove (vs_ChannelID (voiceEvent 1 ''alice'' 11))
             (world (start sampleWorld)) = (Inr barkChannel, sampleWorld)"
    by (simp add: sample_defs)
  have 5: "ch_Name barkChannel = cloneTrigger"
    by (simp add: sample_defs)
  show ?thesis
    using clone_failure_registers_nothing [OF 1 2 3 4 5]
          clone_failure_registers_nothing [OF 1 2 3 6 5]
    by (simp add: sample_defs Let_def)
qed

section \<open>The teams trigger\<close>

text \<open>
  C4. A user with no valid recorded channel joins a channel named \<open>teams\<close>. The handler
  creates a category named after the user, then a text channel and a voice channel under
  that category, then moves the user into the voice channel, each step once and in this
  order. The first step that fails is the last call made, and then neither list changes.
  When all four succeed, the voice channel's identifier is appended to
  \<open>temporaryCategories\<close>.
\<close>

theorem teams_trigger_join:
  assumes join: "String (vs_ChannelID (getVoiceState (hs r) (vs_UserID evt))) = []"
                "IsValid (vs_ChannelID evt)"
      and member: "vs_Member evt = Some m"
      and fetch: "dir_Channel d (vs_ChannelID evt) (world r) = (Inr afterChannel, w1)"
      and name: "ch_Name afterChannel = teamsTrigger"
  defines "catData \<equiv> \<lparr>cd_Name = Username (User m) @ [CHR 0x27] @ ''s room'',
                       cd_Type = GuildCategory, cd_CategoryID = 0\<rparr>"
      and "fetched \<equiv> (JoinFetch, CallChannel (vs_ChannelID evt) (Inr afterChannel))"
  shows
   "(\<forall>e w2. dir_CreateChannel d (ch_GuildID afterChannel) catData w1 = (Inl e, w2) \<longrightarrow>
       calls (onVoiceStateUpdate d evt r) = calls r @
         [fetched, (TeamsCategory, CallCreateChannel (ch_GuildID afterChannel) catData (Inl e))]
       \<and> temporaryCategories (hs (onVoiceStateUpdate d evt r)) = temporaryCategories (hs r)
       \<and> temporaryChannels (hs (onVoiceStateUpdate d evt r)) = temporaryChannels (hs r))
  \<and> (\<forall>cat w2 textData voiceData.
       dir_CreateChannel d (ch_GuildID afterChannel) catData w1 = (Inr cat, w2)
       \<and> textData = \<lparr>cd_Name = ''text'', cd_Type = GuildText, cd_CategoryID = ch_ID cat\<rparr>
       \<and> voiceData = \<lparr>cd_Name = ''voice'', cd_Type = GuildVoice, cd_CategoryID = ch_ID cat\<rparr>
       \<longrightarrow>
       (\<forall>e w3. dir_CreateChannel d (ch_GuildID cat) textData w2 = (Inl e, w3) \<longrightarrow>
          calls (onVoiceStateUpdate d evt r) = calls r @
            [fetched,
             (TeamsCategory, CallCreateChannel (ch_GuildID afterChannel) catData (Inr cat)),
             (TeamsText, CallCreateChannel (ch_GuildID cat) textData (Inl e))]
          \<and> temporaryCategories (hs (onVoiceStateUpdate d evt r)) = temporaryCategories (hs r)
          \<and> temporaryChannels (hs (onVoiceStateUpdate d evt r)) = temporaryChannels (hs r))
     \<and> (\<forall>txt w3. dir_CreateChannel d (ch_GuildID cat) textData w2 = (Inr txt, w3) \<longrightarrow>
          (\<forall>e w4. dir_CreateChannel d (ch_GuildID cat) voiceData w3 = (Inl e, w4) \<longrightarrow>
             calls (onVoiceStateUpdate d evt r) = calls r @
               [fetched,
                (TeamsCategory, CallCreateChannel (ch_GuildID afterChannel) catData (Inr cat)),
                (TeamsText, CallCreateChannel (ch_GuildID cat) textData (Inr txt)),
                (TeamsVoice, CallCreateChannel (ch_GuildID cat) voiceData (Inl e))]
             \<and> temporaryCategories (hs (onVoiceStateUpdate d evt r)) = temporaryCategories (hs r)
             \<and> temporaryChannels (hs (onVoiceStateUpdate d evt r)) = temporaryChannels (hs r))
        \<and> (\<forall>v w4 moved w5.
             dir_CreateChannel d (ch_GuildID cat) voiceData w3 = (Inr v, w4)
             \<and> dir_ModifyMember d (ch_GuildID cat) (vs_UserID evt)
                 \<lparr>VoiceChannel = ch_ID v\<rparr> w4 = (moved, w5) \<longrightarrow>
             calls (onVoiceStateUpdate d evt r) = calls r @
               [fetched,
                (TeamsCategory, CallCreateChannel (ch_GuildID afterChannel) catData (Inr cat)),
                (TeamsText, CallCreateChannel (ch_GuildID cat) textData (Inr txt)),
                (TeamsVoice, CallCreateChannel (ch_GuildID cat) voiceData (Inr v)),
                (TeamsMove, CallModifyMember (ch_GuildID cat) (vs_UserID evt)
                   \<lparr>VoiceChannel = ch_ID v\<rparr> moved)]
             \<and> temporaryCategories (hs (onVoiceStateUpdate d evt r)) =
                 (if moved = None then temporaryCategories (hs r) @ [ch_ID v]
                  else temporaryCategories (hs r))
             \<and> temporaryChannels (hs (onVoiceStateUpdate d evt r)) = temporaryChannels (hs r))))"
proof -
  have ne: "\<not> IsValid (vs_ChannelID (getVoiceState (hs r) (vs_UserID evt)))"
    using join(1) by (simp add: String_empty_iff)
  then have neq: "vs_ChannelID (getVoiceState (hs r) (vs_UserID evt)) \<noteq> vs_ChannelID evt"
    using join(2) by auto
  have nm: "ch_Name afterChannel \<noteq> cloneTrigger"
    using name triggers_differ by simp
  show ?thesis
    using join member fetch name ne neq nm
    unfolding catData_def fetched_def
    by (auto simp: onVoiceStateUpdate_def Let_def joinSection_def teamsBranch_def
          do_Channel_def do_CreateChannel_def do_ModifyMember_def leaveSection_def
          markCategory_def
        split: sum.splits option.splits prod.splits)
qed

text \<open>
  C4, on the sample data: alice joins \<open>teams\<close> and gets category 103 with text channel 104
  and voice channel 105; with a directory that refuses to create, nothing is listed.
\<close>

theorem teams_trigger_join_witness:
  "map fst (calls (onVoiceStateUpdate memoryDirectory (voiceEvent 1 ''alice'' 12)
      (start sampleWorld))) = [JoinFetch, TeamsCategory, TeamsText, TeamsVoice, TeamsMove]
   \<and> temporaryCategories (hs (onVoiceStateUpdate memoryDirectory (voiceEvent 1 ''alice'' 12)
      (start sampleWorld))) = [105]
   \<and> map fst (calls (onVoiceStateUpdate failingCreate (voiceEvent 1 ''alice'' 12)
      (start sampleWorld))) = [JoinFetch, TeamsCategory]
   \<and> temporaryCategories (hs (onVoiceStateUpdate failingCreate (voiceEvent 1 ''alice'' 12)
      (start sampleWorld))) = []"
proof -
  have 1: "String (vs_ChannelID (getVoiceState (hs (start sampleWorld))
              (vs_UserID (voiceEvent 1 ''alice'' 12)))) = []"
    by (simp add: sample_defs handler_defs)
  have 2: "IsValid (vs_ChannelID (voiceEvent 1 ''alice'' 12))"
    by (simp add: sample_defs handler_defs)
  have 3: "vs_Member (voiceEvent 1 ''alice'' 12) = Some \<lparr>User = \<lparr>Username = ''alice''\<rparr>\<rparr>"
    by (simp add: sample_defs)
  have 4: "dir_Channel memoryDirectory (vs_ChannelID (voiceEvent 1 ''alice'' 12))
             (world (start sampleWorld)) = (Inr teamsChannel, sampleWorld)"
    by (simp add: sample_defs)
  have 5: "ch_Name teamsChannel = teamsTrigger"
    by (simp add: sample_defs)
  have 6: "dir_Channel failingCreate (vs_ChannelID (voiceEvent 1 ''alice'' 12))
             (world (start sampleWorld)) = (Inr teamsChannel, sampleWorld)"
    by (simp add: sample_defs)
  show ?thesis
    using teams_trigger_join [OF 1 2 3 4 5] teams_trigger_join [OF 1 2 3 6 5]
    by (simp add: sample_defs Let_def)
qed

section \<open>Marking\<close>

text \<open>
  C9 fails as stated: marking is a plain \<open>append\<close>, so marking an identifier that is
  already listed lists it twice. A directory that returns channel 7 from every
  \<open>CreateChannel\<close> makes the handler do so.
\<close>

theorem mark_idempotent_counterexample:
  "temporaryChannels (hs (deliver repeatingDirectory [voiceEvent 1 ''alice'' 11]
       (start sampleWorld))) = [7]
   \<and> temporaryChannels (hs (deliver repeatingDirectory
       [voiceEvent 1 ''alice'' 11, voiceEvent 2 ''bob'' 11] (start sampleWorld))) = [7, 7]
   \<and> \<not> distinct (temporaryChannels (markChannel
         \<lparr>userVoiceStates = Map.empty, temporaryChannels = [7], temporaryCategories = []\<rparr> 7))
   \<and> \<not> distinct (temporaryCategories (markCategory
         \<lparr>userVoiceStates = Map.empty, temporaryChannels = [], temporaryCategories = [7]\<rparr> 7))"
  by (simp add: sample_defs repeatingDirectory_def handler_defs)

text \<open>
  C9, amended. Marking an identifier that is already listed leaves the set of listed
  identifiers as it was and adds one more entry for the identifier; the other list is
  not touched.
\<close>

theorem mark_appends_duplicate:
  "(c \<in> set (temporaryChannels h) \<longrightarrow>
      set (temporaryChannels (markChannel h c)) = set (temporaryChannels h)
      \<and> count_list (temporaryChannels (markChannel h c)) c
          = Suc (count_list (temporaryChannels h) c)
      \<and> temporaryCategories (markChannel h c) = temporaryCategories h)
 \<and> (c \<in> set (temporaryCategories h) \<longrightarrow>
      set (temporaryCategories (markCategory h c)) = set (temporaryCategories h)
      \<and> count_list (temporaryCategories (markCategory h c)) c
          = Suc (count_list (temporaryCategories h) c)
      \<and> temporaryChannels (markCategory h c) = temporaryChannels h)"
  by (auto simp: markChannel_def markCategory_def)

text \<open>C9, amended, at identifier 7 listed once in each list.\<close>

theorem mark_appends_duplicate_witness:
  "(7 :: ChannelID) \<in> set [7]
   \<and> count_list (temporaryChannels (markChannel
        \<lparr>userVoiceStates = Map.empty, temporaryChannels = [7], temporaryCategories = [7]\<rparr> 7)) 7
      = 2
   \<and> count_list (temporaryCategories (markCategory
        \<lparr>userVoiceStates = Map.empty, temporaryChannels = [7], temporaryCategories = [7]\<rparr> 7)) 7
      = 2"
  using mark_appends_duplicate
    [of 7 "\<lparr>userVoiceStates = Map.empty, temporaryChannels = [7], temporaryCategories = [7]\<rparr>"]
  by simp

section \<open>Teardown of a category\<close>

text \<open>
  C3. Alice joins \<open>teams\<close>, is moved into voice channel 105 of the new category 103, and
  leaves. The teardown fetches the category, lists the guild, deletes the two children and
  the category; then line 194 removes the category's identifier 103 from
  \<open>temporaryCategories\<close>, which never held it. The identifier 105 that line 153 stored
  and line 177 tested is still listed, though channel 105 is gone from the directory.
\<close>

theorem category_teardown_keeps_tracked_id:
  "temporaryCategories (hs (deliver memoryDirectory
      [voiceEvent 1 ''alice'' 12, voiceEvent 1 ''alice'' 105] (start sampleWorld))) = [105]
   \<and> map fst (callsSince
       (deliver memoryDirectory
          [voiceEvent 1 ''alice'' 12, voiceEvent 1 ''alice'' 105] (start sampleWorld))
       (deliver memoryDirectory
          [voiceEvent 1 ''alice'' 12, voiceEvent 1 ''alice'' 105,
           voiceEvent 1 ''alice'' NullSnowflake] (start sampleWorld)))
     = [LeaveFetch, CategoryFetch, CategoryList, ChildDelete, ChildDelete, CategoryDelete]
   \<and> world (deliver memoryDirectory
          [voiceEvent 1 ''alice'' 12, voiceEvent 1 ''alice'' 105,
           voiceEvent 1 ''alice'' NullSnowflake] (start sampleWorld)) = sampleWorld
   \<and> temporaryCategories (hs (deliver memoryDirectory
          [voiceEvent 1 ''alice'' 12, voiceEvent 1 ''alice'' 105,
           voiceEvent 1 ''alice'' NullSnowflake] (start sampleWorld))) = [105]"
  by (simp add: sample_defs handler_defs callsSince_def)

section \<open>The list of temporary channels and the log\<close>

lemma replayChannels_snoc:
  "replayChannels (log @ es) = foldl replayStep (replayChannels log) es"
  by (simp add: replayChannels_def)

lemma linked_snoc:
  "linked prev (es @ es') =
     (linked prev es \<and> linked (if es = [] then prev else cloneCreated (last es)) es')"
  by (induction es arbitrary: prev) auto

lemma replayStep_other:
  "fst e \<noteq> CloneMove \<Longrightarrow> fst e \<noteq> RoomDelete \<Longrightarrow> replayStep xs e = xs"
  by (simp add: replayStep_def cloneMoved_def roomDeleteCalled_def)

lemma followsLog_snoc_other:
  "followsLog r \<Longrightarrow> st \<noteq> CloneMove \<Longrightarrow> st \<noteq> RoomDelete \<Longrightarrow>
     followsLog (r\<lparr>world := w, calls := calls r @ [(st, c)]\<rparr>)"
  by (simp add: followsLog_def replayChannels_snoc replayStep_other linked_snoc cloneMoved_def)

lemma do_Channel_follows:
  "followsLog r \<Longrightarrow> st \<noteq> CloneMove \<Longrightarrow> st \<noteq> RoomDelete \<Longrightarrow>
     followsLog (snd (do_Channel d st c r))"
  by (simp add: do_Channel_def followsLog_snoc_other split: prod.splits)

lemma do_Channels_follows:
  "followsLog r \<Longrightarrow> st \<noteq> CloneMove \<Longrightarrow> st \<noteq> RoomDelete \<Longrightarrow>
     followsLog (snd (do_Channels d st g r))"
  by (simp add: do_Channels_def followsLog_snoc_other split: prod.splits)

lemma do_CreateChannel_follows:
  "followsLog r \<Longrightarrow> st \<noteq> CloneMove \<Longrightarrow> st \<noteq> RoomDelete \<Longrightarrow>
     followsLog (snd (do_CreateChannel d st g dat r))"
  by (simp add: do_CreateChannel_def followsLog_snoc_other split: prod.splits)

lemma do_DeleteChannel_follows:
  "followsLog r \<Longrightarrow> st \<noteq> CloneMove \<Longrightarrow> st \<noteq> RoomDelete \<Longrightarrow>
     followsLog (snd (do_DeleteChannel d st c reason r))"
  by (simp add: do_DeleteChannel_def followsLog_snoc_other split: prod.splits)

lemma do_ModifyMember_follows:
  "followsLog r \<Longrightarrow> st \<noteq> CloneMove \<Longrightarrow> st \<noteq> RoomDelete \<Longrightarrow>
     followsLog (snd (do_ModifyMember d st g u dat r))"
  by (simp add: do_ModifyMember_def followsLog_snoc_other split: prod.splits)

lemma followsLog_markCategory:
  "followsLog r \<Longrightarrow> followsLog (r\<lparr>hs := markCategory (hs r) c\<rparr>)"
  by (simp add: followsLog_def markCategory_def)

lemma followsLog_remove_category:
  "followsLog r \<Longrightarrow>
     followsLog (r\<lparr>hs := (hs r)\<lparr>temporaryCategories := xs\<rparr>\<rparr>)"
  by (simp add: followsLog_def)

lemma followsLog_registry:
  "followsLog r \<Longrightarrow> followsLog (r\<lparr>hs := (hs r)\<lparr>userVoiceStates := m\<rparr>\<rparr>)"
  by (simp add: followsLog_def)

lemma cloneBranch_follows:
  "followsLog r \<Longrightarrow> followsLog (flow_run (cloneBranch d evt n a r))"
  by (auto simp: cloneBranch_def do_CreateChannel_def do_ModifyMember_def followsLog_def
        markChannel_def replayChannels_snoc linked_snoc replayStep_def cloneMoved_def
        cloneCreated_def roomDeleteCalled_def
      split: prod.splits sum.splits option.splits)

lemmas log_simps = followsLog_def replayChannels_snoc linked_snoc replayStep_def
  cloneMoved_def cloneCreated_def roomDeleteCalled_def

lemma teamsBranch_follows:
  "followsLog r \<Longrightarrow> followsLog (flow_run (teamsBranch d evt n a r))"
  by (auto simp: teamsBranch_def do_CreateChannel_def do_ModifyMember_def markCategory_def
        log_simps
      split: prod.splits sum.splits option.splits)

lemma joinSection_follows:
  assumes "followsLog r"
  shows "followsLog (flow_run (joinSection d b evt n r))"
proof (cases "String (vs_ChannelID b) = [] \<and> IsValid (vs_ChannelID evt)
              \<and> vs_ChannelID b \<noteq> vs_ChannelID evt")
  case False
  then show ?thesis using assms by (auto simp: joinSection_def)
next
  case True
  obtain res r1 where f: "do_Channel d JoinFetch (vs_ChannelID evt) r = (res, r1)"
    by (cases "do_Channel d JoinFetch (vs_ChannelID evt) r")
  have r1: "followsLog r1"
    using do_Channel_follows[OF assms, of JoinFetch d "vs_ChannelID evt"] f by simp
  show ?thesis
  proof (cases res)
    case (Inl e)
    then show ?thesis using True f r1 by (simp add: joinSection_def)
  next
    case (Inr afterChannel)
    define f1 where "f1 = (if ch_Name afterChannel = cloneTrigger
                      then cloneBranch d evt n afterChannel r1 else Falls r1)"
    have c: "followsLog (flow_run f1)"
      using r1 by (simp add: f1_def cloneBranch_follows)
    have "followsLog (flow_run (case f1 of Returned r2 \<Rightarrow> Returned r2
                | Falls r2 \<Rightarrow> if ch_Name afterChannel = teamsTrigger
                    then teamsBranch d evt n afterChannel r2 else Falls r2))"
      using c by (cases f1) (auto simp: teamsBranch_follows)
    then show ?thesis
      using True f Inr by (simp add: joinSection_def f1_def)
  qed
qed

lemma deleteChildren_follows:
  "followsLog r \<Longrightarrow> followsLog (deleteChildren d c chs r)"
  by (induction chs arbitrary: r) (auto simp: do_DeleteChannel_follows)

lemma roomTeardown_follows:
  "followsLog r \<Longrightarrow> followsLog (roomTeardown d b r)"
  by (auto simp: roomTeardown_def do_DeleteChannel_def log_simps split: prod.splits)

lemma categoryTeardown_follows:
  assumes "followsLog r"
  shows "followsLog (categoryTeardown d b r)"
proof (cases "ch_ParentID b \<noteq> 0 \<and> contains_id (temporaryCategories (hs r)) (ch_ID b)")
  case False
  then show ?thesis using assms by (auto simp: categoryTeardown_def)
next
  case True
  obtain res1 r1 where f1: "do_Channel d CategoryFetch (ch_ParentID b) r = (res1, r1)"
    by (cases "do_Channel d CategoryFetch (ch_ParentID b) r")
  have r1: "followsLog r1"
    using do_Channel_follows[OF assms, of CategoryFetch d "ch_ParentID b"] f1 by simp
  show ?thesis
  proof (cases res1)
    case (Inl e)
    then show ?thesis using True f1 r1 by (simp add: categoryTeardown_def)
  next
    case (Inr category)
    show ?thesis
    proof (cases "ch_DMRecipients b = []")
      case False
      then show ?thesis using True f1 r1 Inr by (simp add: categoryTeardown_def)
    next
      case empty: True
      obtain res2 r2 where f2: "do_Channels d CategoryList (ch_GuildID category) r1 = (res2, r2)"
        by (cases "do_Channels d CategoryList (ch_GuildID category) r1")
      have r2: "followsLog r2"
        using do_Channels_follows[OF r1, of CategoryList d "ch_GuildID category"] f2 by simp
      show ?thesis
      proof (cases res2)
        case (Inl e)
        then show ?thesis using True f1 Inr empty f2 r2 by (simp add: categoryTeardown_def)
      next
        case channels: (Inr channels)
        obtain res3 r3 where f3:
          "do_DeleteChannel d CategoryDelete (ch_ID category) cleaningUp
             (deleteChildren d (ch_ParentID b) channels r2) = (res3, r3)"
          by (cases "do_DeleteChannel d CategoryDelete (ch_ID category) cleaningUp
             (deleteChildren d (ch_ParentID b) channels r2)")
        have dc: "followsLog (deleteChildren d (ch_ParentID b) channels r2)"
          using r2 by (rule deleteChildren_follows)
        have "followsLog (snd (do_DeleteChannel d CategoryDelete (ch_ID category) cleaningUp
                (deleteChildren d (ch_ParentID b) channels r2)))"
          using dc by (simp add: do_DeleteChannel_follows)
        then have "followsLog r3"
          using f3 by simp
        then have "followsLog (r3\<lparr>hs := (hs r3)\<lparr>temporaryCategories :=
                     remove_id (temporaryCategories (hs r3)) (ch_ParentID b)\<rparr>\<rparr>)"
          by (rule followsLog_remove_category)
        then show ?thesis
          using True f1 Inr empty f2 channels f3 by (simp add: categoryTeardown_def)
      qed
    qed
  qed
qed

lemma leaveSection_follows:
  assumes "followsLog r"
  shows "followsLog (leaveSection d b evt r)"
proof (cases "IsValid (vs_ChannelID b) \<and> String (vs_ChannelID evt) = []")
  case False
  then show ?thesis using assms by (auto simp: leaveSection_def)
next
  case True
  obtain res r1 where f: "do_Channel d LeaveFetch (vs_ChannelID b) r = (res, r1)"
    by (cases "do_Channel d LeaveFetch (vs_ChannelID b) r")
  have r1: "followsLog r1"
    using do_Channel_follows[OF assms, of LeaveFetch d "vs_ChannelID b"] f by simp
  show ?thesis
    using True f r1
    by (cases res) (simp_all add: leaveSection_def categoryTeardown_follows roomTeardown_follows)
qed

lemma followsLog_panicked:
  "followsLog r \<Longrightarrow> followsLog (r\<lparr>panicked := p\<rparr>)"
  by (simp add: followsLog_def)

lemma onVoiceStateUpdate_follows:
  assumes "followsLog r"
  shows "followsLog (onVoiceStateUpdate d evt r)"
proof -
  let ?r0 = "r\<lparr>hs := (hs r)\<lparr>userVoiceStates :=
                    (userVoiceStates (hs r))(vs_UserID evt \<mapsto> evt)\<rparr>\<rparr>"
  have r0: "followsLog ?r0"
    using assms by (rule followsLog_registry)
  show ?thesis
  proof (cases "vs_Member evt")
    case None
    then show ?thesis
      using r0 by (simp add: onVoiceStateUpdate_def Let_def followsLog_panicked)
  next
    case (Some m)
    let ?j = "joinSection d (getVoiceState (hs r) (vs_UserID evt)) evt
                (Username (User m) @ [CHR 0x27] @ ''s room'') ?r0"
    have j: "followsLog (flow_run ?j)"
      using r0 by (rule joinSection_follows)
    show ?thesis
      using Some j
      by (cases ?j) (simp_all add: onVoiceStateUpdate_def Let_def leaveSection_follows)
  qed
qed

lemma deliver_follows:
  "followsLog r \<Longrightarrow> followsLog (deliver d evts r)"
  by (induction evts arbitrary: r) (auto simp: onVoiceStateUpdate_follows)

lemma start_follows: "followsLog (start w)"
  by (simp add: followsLog_def start_def newHandler_def replayChannels_def)

lemma remove_id_remove1: "remove_id xs c = remove1 c xs"
  by (induction xs) auto

lemma appended_snoc:
  "appended (log @ [e]) =
     appended log @ (case cloneMoved e of None \<Rightarrow> [] | Some c \<Rightarrow> [c])"
  by (simp add: appended_def List.map_filter_def split: option.splits)

lemma logTracked_snoc:
  "logTracked (log @ [e]) c =
     (if cloneMoved e = Some c then True
      else if roomDeleteCalled e = Some c then False else logTracked log c)"
  by (simp add: logTracked_def)

lemma moved_not_deleted: "cloneMoved e = Some c \<Longrightarrow> roomDeleteCalled e = None"
  by (simp add: cloneMoved_def roomDeleteCalled_def split: if_splits)

lemma replay_membership:
  "distinct (appended log) \<Longrightarrow>
     distinct (replayChannels log) \<and> set (replayChannels log) \<subseteq> set (appended log)
     \<and> (c \<in> set (replayChannels log)) = logTracked log c"
proof (induction log rule: rev_induct)
  case Nil
  then show ?case by (simp add: replayChannels_def logTracked_def appended_def)
next
  case (snoc e log)
  show ?case
  proof (cases "cloneMoved e")
    case (Some c')
    have d: "distinct (appended log)" and fresh: "c' \<notin> set (appended log)"
      using snoc.prems Some by (simp_all add: appended_snoc)
    have r: "replayChannels (log @ [e]) = replayChannels log @ [c']"
      using Some by (simp add: replayChannels_snoc replayStep_def)
    show ?thesis
      using snoc.IH[OF d] fresh Some r moved_not_deleted[OF Some]
      by (auto simp: appended_snoc logTracked_snoc)
  next
    case None
    have d: "distinct (appended log)"
      using snoc.prems None by (simp add: appended_snoc)
    have r: "replayChannels (log @ [e]) =
               (case roomDeleteCalled e of None \<Rightarrow> replayChannels log
                | Some c' \<Rightarrow> remove1 c' (replayChannels log))"
      using None by (simp add: replayChannels_snoc replayStep_def remove_id_remove1
          split: option.splits)
    show ?thesis
      using snoc.IH[OF d] None r
      by (auto simp: appended_snoc logTracked_snoc split: option.splits
          dest: notin_set_remove1)
  qed
qed

text \<open>
  C2 fails as stated, in two ways. With a directory that refuses to delete, alice's room
  103 is unlisted when she leaves, though no \<open>DeleteChannel\<close> succeeded on it: line 172
  runs whatever line 168 returned. With a directory that refuses to move, room 103 is
  created and never listed.
\<close>

theorem tracked_iff_created_counterexample:
  "\<not> ((103 \<in> set (temporaryChannels (hs (deliver failingDelete
          [voiceEvent 1 ''alice'' 11, voiceEvent 1 ''alice'' 103,
           voiceEvent 1 ''alice'' NullSnowflake] (start sampleWorld)))))
       = specTracked (calls (deliver failingDelete
          [voiceEvent 1 ''alice'' 11, voiceEvent 1 ''alice'' 103,
           voiceEvent 1 ''alice'' NullSnowflake] (start sampleWorld))) 103)
   \<and> \<not> ((103 \<in> set (temporaryChannels (hs (deliver failingMove
          [voiceEvent 1 ''alice'' 11] (start sampleWorld)))))
       = specTracked (calls (deliver failingMove
          [voiceEvent 1 ''alice'' 11] (start sampleWorld))) 103)"
  by (simp add: sample_defs failingDelete_def handler_defs cloneCreated_def
      teardownDeleted_def specTracked_def)

text \<open>
  C2, amended. After any notifications processed from the initial state,
  \<open>temporaryChannels\<close> is the list that the log gives: every successful move of the clone
  branch appends the identifier moved into, which is the one that the clone branch's
  \<open>CreateChannel\<close> just before returned, and every \<open>DeleteChannel\<close> of the room teardown,
  failed or not, removes the first entry of its identifier. When no identifier is appended
  twice, an identifier is listed if and only if it was so appended and the room teardown
  has not called \<open>DeleteChannel\<close> on it since.
\<close>

theorem temporaryChannels_follow_log:
  "temporaryChannels (hs (deliver d evts (start w)))
     = replayChannels (calls (deliver d evts (start w)))
   \<and> linked None (calls (deliver d evts (start w)))
   \<and> (distinct (appended (calls (deliver d evts (start w)))) \<longrightarrow>
        (c \<in> set (temporaryChannels (hs (deliver d evts (start w)))))
          = logTracked (calls (deliver d evts (start w))) c)"
proof -
  have f: "followsLog (deliver d evts (start w))"
    by (rule deliver_follows) (rule start_follows)
  then show ?thesis
    using replay_membership[of "calls (deliver d evts (start w))" c]
    by (auto simp: followsLog_def)
qed

text \<open>
  C2, amended, on the sample data: alice and bob each get a room, alice leaves; bob's
  room 104 is what stays listed.
\<close>

theorem temporaryChannels_follow_log_witness:
  "distinct (appended (calls (deliver memoryDirectory
      [voiceEvent 1 ''alice'' 11, voiceEvent 1 ''alice'' 103, voiceEvent 2 ''bob'' 11,
       voiceEvent 2 ''bob'' 104, voiceEvent 1 ''alice'' NullSnowflake] (start sampleWorld))))
   \<and> temporaryChannels (hs (deliver memoryDirectory
      [voiceEvent 1 ''alice'' 11, voiceEvent 1 ''alice'' 103, voiceEvent 2 ''bob'' 11,
       voiceEvent 2 ''bob'' 104, voiceEvent 1 ''alice'' NullSnowflake] (start sampleWorld)))
     = [104]
   \<and> logTracked (calls (deliver memoryDirectory
      [voiceEvent 1 ''alice'' 11, voiceEvent 1 ''alice'' 103, voiceEvent 2 ''bob'' 11,
       voiceEvent 2 ''bob'' 104, voiceEvent 1 ''alice'' NullSnowflake] (start sampleWorld))) 104"
proof -
  let ?R = "deliver memoryDirectory
      [voiceEvent 1 ''alice'' 11, voiceEvent 1 ''alice'' 103, voiceEvent 2 ''bob'' 11,
       voiceEvent 2 ''bob'' 104, voiceEvent 1 ''alice'' NullSnowflake] (start sampleWorld)"
  have d: "distinct (appended (calls ?R))"
    by (simp add: sample_defs handler_defs cloneMoved_def appended_def List.map_filter_def)
  have t: "temporaryChannels (hs ?R) = [104]"
    by (simp add: sample_defs handler_defs)
  have m: "104 \<in> set (temporaryChannels (hs ?R))"
    unfolding t by simp
  have "(104 \<in> set (temporaryChannels (hs ?R))) = logTracked (calls ?R) 104"
    using d temporaryChannels_follow_log [of memoryDirectory
      "[voiceEvent 1 ''alice'' 11, voiceEvent 1 ''alice'' 103, voiceEvent 2 ''bob'' 11,
        voiceEvent 2 ''bob'' 104, voiceEvent 1 ''alice'' NullSnowflake]" sampleWorld 104]
    by blast
  then show ?thesis
    using d t m by blast
qed

end
